theory Spec2Isabelle
  imports Main "HOL-Library.AList"
begin

section \<open>Mini-CyberArk: the credential vault of main.go\<close>

text \<open>
  The program is one Go file: two HTTP handlers (\<open>createCredential\<close>,
  \<open>retrieveCredential\<close>) over one MongoDB collection with a unique index on
  \<open>username\<close>, and a goroutine, started by every successful retrieval, that sleeps ten
  seconds and then overwrites the password of the record.

  Every handler performs exactly one operation on the collection (\<open>InsertOne\<close>,
  \<open>FindOne\<close>, \<open>UpdateOne\<close>), and the database runs each of them atomically, so a
  concurrent execution of the server is an interleaving of the steps modelled below.
\<close>

subsection \<open>Documents and the Credential struct\<close>

text \<open>Instants are milliseconds since the Unix epoch (the resolution of a BSON datetime).\<close>

type_synonym instant = int

datatype bson_value = BObjectID nat | BString string | BDateTime instant

type_synonym document = "(string \<times> bson_value) list"

text \<open>
  \<open>type Credential struct\<close>. The \<open>ID\<close> 0 stands for the zero ObjectID, the value the
  field has when nothing sets it.
\<close>

record Credential =
  ID :: nat
  Username :: string
  Password :: string
  LastRotated :: instant

text \<open>The zero \<open>time.Time\<close> (1 January of year 1, UTC).\<close>

definition zero_time :: instant where
  "zero_time = - 62135596800000"

text \<open>
  Marshalling by the struct tags: \<open>bson:"_id,omitempty"\<close>, \<open>bson:"username"\<close>,
  \<open>bson:"password"\<close>, \<open>bson:"last_rotated"\<close>.
\<close>

definition bson_of :: "Credential \<Rightarrow> document" where
  "bson_of c =
     (if ID c = 0 then [] else [(''_id'', BObjectID (ID c))]) @
     [(''username'', BString (Username c)),
      (''password'', BString (Password c)),
      (''last_rotated'', BDateTime (LastRotated c))]"

datatype mongo_error = ErrNoDocuments | WriteException "int list" | OtherError

text \<open>
  \<open>Decode(&cred)\<close>: a field missing from the document leaves the zero value, a field of
  another BSON type is an error.
\<close>

fun decode_oid :: "bson_value option \<Rightarrow> nat option" where
  "decode_oid None = Some 0"
| "decode_oid (Some (BObjectID i)) = Some i"
| "decode_oid (Some _) = None"

fun decode_string :: "bson_value option \<Rightarrow> string option" where
  "decode_string None = Some []"
| "decode_string (Some (BString s)) = Some s"
| "decode_string (Some _) = None"

fun decode_time :: "bson_value option \<Rightarrow> instant option" where
  "decode_time None = Some zero_time"
| "decode_time (Some (BDateTime t)) = Some t"
| "decode_time (Some _) = None"

definition Decode :: "document \<Rightarrow> mongo_error + Credential" where
  "Decode d =
     (case (decode_oid (map_of d ''_id''), decode_string (map_of d ''username''),
            decode_string (map_of d ''password''), decode_time (map_of d ''last_rotated'')) of
        (Some i, Some u, Some p, Some t) \<Rightarrow>
          Inr \<lparr>ID = i, Username = u, Password = p, LastRotated = t\<rparr>
      | _ \<Rightarrow> Inl OtherError)"

subsection \<open>The collection\<close>

text \<open>
  The collection is the list of its documents in insertion order. The flag \<open>fault\<close> of an
  operation says that the driver returned an error of its own (time-out, lost connection);
  the operation then has no effect.
\<close>

text \<open>The filter \<open>bson.M{"username": un}\<close>.\<close>

definition matches :: "string \<Rightarrow> document \<Rightarrow> bool" where
  "matches un d = (map_of d ''username'' = Some (BString un))"

text \<open>
  The unique indexes: the built-in one on \<open>_id\<close> and \<open>uniq_username\<close>, which \<open>main\<close>
  creates before it serves any request.
\<close>

definition duplicate_key :: "document \<Rightarrow> document list \<Rightarrow> bool" where
  "duplicate_key doc c =
     (\<exists>d \<in> set c. map_of d ''_id'' = map_of doc ''_id'' \<or>
                   map_of d ''username'' = map_of doc ''username'')"

text \<open>
  \<open>InsertOne\<close>: a document without \<open>_id\<close> gets the ObjectID \<open>oid\<close> that the driver
  generates; a clash with a unique index is a write exception with code 11000.
\<close>

definition InsertOne :: "nat \<Rightarrow> bool \<Rightarrow> document \<Rightarrow> document list \<Rightarrow> mongo_error + document list" where
  "InsertOne oid fault doc c =
     (if fault then Inl OtherError
      else let doc' = (if map_of doc ''_id'' = None then (''_id'', BObjectID oid) # doc else doc)
           in if duplicate_key doc' c then Inl (WriteException [11000])
              else Inr (c @ [doc']))"

text \<open>\<open>FindOne(ctx, filter).Decode(&cred)\<close>.\<close>

definition FindOne :: "bool \<Rightarrow> string \<Rightarrow> document list \<Rightarrow> mongo_error + Credential" where
  "FindOne fault un c =
     (if fault then Inl OtherError
      else case find (matches un) c of
             None \<Rightarrow> Inl ErrNoDocuments
           | Some d \<Rightarrow> Decode d)"

text \<open>The update document \<open>{"$set": upd}\<close> applied to one document.\<close>

definition apply_set :: "document \<Rightarrow> document \<Rightarrow> document" where
  "apply_set upd d = fold (\<lambda>(k, v). AList.update k v) upd d"

fun update_first :: "('a \<Rightarrow> bool) \<Rightarrow> ('a \<Rightarrow> 'a) \<Rightarrow> 'a list \<Rightarrow> 'a list" where
  "update_first P f [] = []"
| "update_first P f (d # ds) = (if P d then f d # ds else d # update_first P f ds)"

text \<open>
  \<open>UpdateOne(ctx, filter, update)\<close>: the first matching document is updated; no match is
  not an error.
\<close>

definition UpdateOne :: "bool \<Rightarrow> string \<Rightarrow> document \<Rightarrow> document list \<Rightarrow> mongo_error + document list" where
  "UpdateOne fault un upd c =
     (if fault then Inl OtherError
      else Inr (update_first (matches un) (apply_set upd) c))"

subsection \<open>Requests and responses\<close>

text \<open>
  The body of a request as \<open>json.NewDecoder(r.Body).Decode(&cred)\<close> reads it: \<open>None\<close>
  when decoding fails, otherwise the three fields that have a JSON name (\<open>ID\<close> has the tag
  \<open>json:"-"\<close> and is never read).
\<close>

record body_fields =
  b_username :: string
  b_password :: string
  b_last_rotated :: instant

record Request =
  Method :: string
  Path :: string
  Body :: "body_fields option"

text \<open>\<open>Formatted t\<close> is the text of the instant \<open>t\<close> in the layout the handler uses.\<close>

datatype json_value = Str string | Formatted instant

datatype content =
    Text string
  | TextWithError string mongo_error
  | Json "(string \<times> json_value) list"

record Response =
  status :: nat
  content :: content

text \<open>\<open>http.Error\<close> writes the message and a newline.\<close>

definition http_Error :: "string \<Rightarrow> nat \<Rightarrow> Response" where
  "http_Error msg code = \<lparr>status = code, content = Text (msg @ [CHR 0x0A])\<rparr>"

definition TrimPrefix :: "string \<Rightarrow> string \<Rightarrow> string" where
  "TrimPrefix s p = (if take (length p) s = p then drop (length p) s else s)"

subsection \<open>generateRandomPassword\<close>

definition charset :: string where
  "charset = ''abcdefghijklmnopqrstuvwxyzABCDEFGHIJKLMNOPQRSTUVWXYZ0123456789!@#$%^&*''"

text \<open>
  The \<open>i\<close>-th call of \<open>rand.Intn(len(charset))\<close> is the \<open>i\<close>-th draw of the random source
  \<open>rnd\<close>, reduced to the range.
\<close>

definition generateRandomPassword :: "(nat \<Rightarrow> nat) \<Rightarrow> string" where
  "generateRandomPassword rnd =
     map (\<lambda>i. charset ! (rnd i mod length charset)) [0, 1, 2, 3, 4, 5, 6, 7, 8, 9, 10, 11]"

subsection \<open>createCredential\<close>

definition createCredential ::
  "instant \<Rightarrow> nat \<Rightarrow> bool \<Rightarrow> Request \<Rightarrow> document list \<Rightarrow> Response \<times> document list" where
  "createCredential now oid fault r c =
     (if Method r \<noteq> ''POST'' then (http_Error ''Only POST allowed'' 405, c)
      else case Body r of
        None \<Rightarrow> (http_Error ''Invalid JSON'' 400, c)
      | Some b \<Rightarrow>
          let cred = \<lparr>ID = 0, Username = b_username b, Password = b_password b,
                      LastRotated = b_last_rotated b\<rparr>
          in if Username cred = [] \<or> Password cred = []
             then (http_Error ''Username and password required'' 400, c)
             else let cred = cred\<lparr>LastRotated := now\<rparr>
                  in (case InsertOne oid fault (bson_of cred) c of
                       Inl err \<Rightarrow>
                         (case err of
                            WriteException codes \<Rightarrow>
                              if 11000 \<in> set codes
                              then (http_Error ''Username already exists'' 409, c)
                              else (\<lparr>status = 500,
                                     content = TextWithError ''Insert failed: '' err\<rparr>, c)
                          | _ \<Rightarrow> (\<lparr>status = 500,
                                    content = TextWithError ''Insert failed: '' err\<rparr>, c))
                     | Inr c' \<Rightarrow>
                         (\<lparr>status = 201,
                           content = Json [(''message'', Str ''Credential created successfully''),
                                           (''password'', Str (Password cred)),
                                           (''username'', Str (Username cred))]\<rparr>, c')))"

subsection \<open>retrieveCredential and its goroutine\<close>

text \<open>
  The goroutine \<open>go func(un string, npw string)\<close>: its two arguments, and the instant at
  which its \<open>time.Sleep(10 * time.Second)\<close> is over.
\<close>

record goroutine =
  un :: string
  npw :: string
  wake :: instant

definition rotation_delay :: instant where
  "rotation_delay = 10000"

text \<open>
  The handler reads the collection once, answers, and only then starts the goroutine; it
  writes nothing. The result is the response and the goroutine started, if any.
\<close>

definition retrieveCredential ::
  "instant \<Rightarrow> bool \<Rightarrow> (nat \<Rightarrow> nat) \<Rightarrow> Request \<Rightarrow> document list \<Rightarrow> Response \<times> goroutine option" where
  "retrieveCredential now fault rnd r c =
     (let username = TrimPrefix (Path r) ''/retrieve/''
      in if username = [] then (http_Error ''Username is required in path'' 400, None)
         else case FindOne fault username c of
                Inl err \<Rightarrow>
                  (if err = ErrNoDocuments then (http_Error ''Credential not found'' 404, None)
                   else (http_Error ''Database error'' 500, None))
              | Inr cred \<Rightarrow>
                  (let currentPassword = Password cred
                   in (\<lparr>status = 200,
                        content = Json [(''password'', Str currentPassword),
                                        (''retrieved_time'', Formatted now),
                                        (''username'', Str username)]\<rparr>,
                       Some \<lparr>un = username, npw = generateRandomPassword rnd,
                             wake = now + rotation_delay\<rparr>)))"

datatype log_line = DelayedUpdateFailed string mongo_error | PasswordRotated string instant

text \<open>The body of the goroutine after its sleep; \<open>updatedTime\<close> is the clock then.\<close>

definition rotate :: "instant \<Rightarrow> bool \<Rightarrow> goroutine \<Rightarrow> document list \<Rightarrow> log_line \<times> document list" where
  "rotate updatedTime fault g c =
     (case UpdateOne fault (un g)
             [(''password'', BString (npw g)), (''last_rotated'', BDateTime updatedTime)] c of
        Inl err \<Rightarrow> (DelayedUpdateFailed (un g) err, c)
      | Inr c' \<Rightarrow> (PasswordRotated (un g) updatedTime, c'))"

subsection \<open>The running server\<close>

text \<open>
  The collection lives in the database; the sleeping goroutines live in the memory of the
  server process, and the clock is the wall clock.
\<close>

record vault =
  coll :: "document list"
  sleeping :: "goroutine list"
  clock :: instant

datatype event =
    Create nat bool Request
  | Retrieve bool "nat \<Rightarrow> nat" Request
  | Wake nat bool
  | Advance nat
  | Restart

text \<open>
  \<open>Wake i fault\<close>: the \<open>i\<close>-th sleeping goroutine resumes, which it can do only once its
  sleep is over, runs its update and ends. \<open>Restart\<close>: the process stops and starts again;
  its goroutines are gone, the database is not touched.
\<close>

fun step :: "event \<Rightarrow> vault \<Rightarrow> vault" where
  "step (Create oid fault r) s = s\<lparr>coll := snd (createCredential (clock s) oid fault r (coll s))\<rparr>"
| "step (Retrieve fault rnd r) s =
     (case snd (retrieveCredential (clock s) fault rnd r (coll s)) of
        None \<Rightarrow> s
      | Some g \<Rightarrow> s\<lparr>sleeping := sleeping s @ [g]\<rparr>)"
| "step (Wake i fault) s =
     (if i < length (sleeping s) \<and> wake (sleeping s ! i) \<le> clock s
      then s\<lparr>coll := snd (rotate (clock s) fault (sleeping s ! i) (coll s)),
             sleeping := take i (sleeping s) @ drop (Suc i) (sleeping s)\<rparr>
      else s)"
| "step (Advance d) s = s\<lparr>clock := clock s + int d\<rparr>"
| "step Restart s = s\<lparr>sleeping := []\<rparr>"

definition run :: "event list \<Rightarrow> vault \<Rightarrow> vault" where
  "run evs s = fold step evs s"

text \<open>The server started for the first time, on an empty collection.\<close>

definition fresh :: vault where
  "fresh = \<lparr>coll = [], sleeping = [], clock = 0\<rparr>"

text \<open>What the collection holds for a username.\<close>

definition has_user :: "string \<Rightarrow> document list \<Rightarrow> bool" where
  "has_user u c = (find (matches u) c \<noteq> None)"

definition stored :: "string \<Rightarrow> string \<Rightarrow> document list \<Rightarrow> bson_value option" where
  "stored field u c = (case find (matches u) c of None \<Rightarrow> None | Some d \<Rightarrow> map_of d field)"

subsection \<open>Observations on runs\<close>

text \<open>
  A stored document is well formed when it has the four fields of the struct, in the
  order in which \<open>InsertOne\<close> wrote them, with values of the right types and a username
  that is not empty.
\<close>

definition wf_doc :: "document \<Rightarrow> bool" where
  "wf_doc d = (\<exists>i u p t. u \<noteq> [] \<and>
       d = [(''_id'', BObjectID i), (''username'', BString u), (''password'', BString p),
            (''last_rotated'', BDateTime t)])"

text \<open>
  The password writes an event commits in a state, as pairs of username and password: a
  create that answers 201, and a goroutine that resumes, meets no driver error and finds its
  record. The history of a run lists them in commit order.
\<close>

fun committed :: "event \<Rightarrow> vault \<Rightarrow> (string \<times> string) list" where
  "committed (Create oid fault r) s =
     (if status (fst (createCredential (clock s) oid fault r (coll s))) = 201
      then (case Body r of None \<Rightarrow> [] | Some b \<Rightarrow> [(b_username b, b_password b)])
      else [])"
| "committed (Wake i fault) s =
     (if i < length (sleeping s) \<and> wake (sleeping s ! i) \<le> clock s \<and> \<not> fault \<and>
         has_user (un (sleeping s ! i)) (coll s)
      then [(un (sleeping s ! i), npw (sleeping s ! i))]
      else [])"
| "committed (Retrieve fault rnd r) s = []"
| "committed (Advance d) s = []"
| "committed Restart s = []"

fun history :: "event list \<Rightarrow> vault \<Rightarrow> (string \<times> string) list" where
  "history [] s = []"
| "history (e # es) s = committed e s @ history es (step e s)"

definition last_write :: "string \<Rightarrow> (string \<times> string) list \<Rightarrow> string option" where
  "last_write u h = map_of (rev h) u"

text \<open>
  Events that are no request: time passing, a goroutine resuming, a restart.
\<close>

fun no_request :: "event \<Rightarrow> bool" where
  "no_request (Create oid fault r) = False"
| "no_request (Retrieve fault rnd r) = False"
| "no_request (Wake i fault) = True"
| "no_request (Advance d) = True"
| "no_request Restart = True"

text \<open>
  Two requests to evaluate the handlers on: \<open>POST /create\<close> with the body
  \<open>{"username": "alice", "password": "Init@123"}\<close>, and \<open>GET /retrieve/alice\<close>.
\<close>

definition create_alice :: Request where
  "create_alice = \<lparr>Method = ''POST'', Path = ''/create'',
     Body = Some \<lparr>b_username = ''alice'', b_password = ''Init@123'', b_last_rotated = zero_time\<rparr>\<rparr>"

definition retrieve_alice :: Request where
  "retrieve_alice = \<lparr>Method = ''GET'', Path = ''/retrieve/alice'', Body = None\<rparr>"

section \<open>Properties of the collection operations\<close>

lemma map_of_apply_set2:
  "map_of (apply_set [(k1, v1), (k2, v2)] d) = (map_of d)(k1 \<mapsto> v1, k2 \<mapsto> v2)"
  by (simp add: apply_set_def update_conv')

lemma matches_apply_set_rot:
  "matches u (apply_set [(''password'', p), (''last_rotated'', t)] d) = matches u d"
  by (simp add: matches_def map_of_apply_set2)

lemma matches_unique: "matches u d \<Longrightarrow> matches v d \<Longrightarrow> u = v"
  by (simp add: matches_def)

lemma length_update_first: "length (update_first P f xs) = length xs"
  by (induction xs) auto

lemma find_update_first_same:
  "(\<And>x. Q (f x) = Q x) \<Longrightarrow> find Q (update_first Q f xs) = map_option f (find Q xs)"
  by (induction xs) auto

lemma find_update_first_other:
  "(\<And>x. P x \<Longrightarrow> \<not> Q x) \<Longrightarrow> (\<And>x. Q (f x) = Q x) \<Longrightarrow>
   find Q (update_first P f xs) = find Q xs"
  by (induction xs) auto

lemma update_first_no_match: "\<forall>x \<in> set xs. \<not> P x \<Longrightarrow> update_first P f xs = xs"
  by (induction xs) auto

lemma nth_update_first_frame:
  "i < length xs \<Longrightarrow> (\<And>x. g (f x) = g x) \<Longrightarrow> g (update_first P f xs ! i) = g (xs ! i)"
proof (induction xs arbitrary: i)
  case Nil
  then show ?case by simp
next
  case (Cons x xs)
  then show ?case by (cases i) auto
qed

lemma nth_update_first_unmatched:
  "i < length xs \<Longrightarrow> \<not> P (xs ! i) \<Longrightarrow> update_first P f xs ! i = xs ! i"
proof (induction xs arbitrary: i)
  case Nil
  then show ?case by simp
next
  case (Cons x xs)
  then show ?case by (cases i) auto
qed

lemma set_update_first: "set (update_first P f xs) \<subseteq> set xs \<union> f ` set xs"
  by (induction xs) auto

lemma find_append:
  "find P (xs @ ys) = (case find P xs of None \<Rightarrow> find P ys | Some x \<Rightarrow> Some x)"
  by (induction xs) auto

lemma has_user_iff: "has_user u c \<longleftrightarrow> (\<exists>d \<in> set c. matches u d)"
  by (auto simp: has_user_def find_None_iff)

lemma map_of_bson_of_new:
  "map_of (bson_of \<lparr>ID = 0, Username = u, Password = p, LastRotated = t\<rparr>) ''username'' = Some (BString u)"
  "map_of (bson_of \<lparr>ID = 0, Username = u, Password = p, LastRotated = t\<rparr>) ''_id'' = None"
  by (simp_all add: bson_of_def)

lemma Decode_stored_doc:
  "Decode [(''_id'', BObjectID i), (''username'', BString u), (''password'', BString p),
           (''last_rotated'', BDateTime t)]
   = Inr \<lparr>ID = i, Username = u, Password = p, LastRotated = t\<rparr>"
  by (simp add: Decode_def)

subsection \<open>The update of the goroutine\<close>

lemma snd_rotate:
  "snd (rotate t fault g c) =
     (if fault then c
      else update_first (matches (un g))
             (apply_set [(''password'', BString (npw g)), (''last_rotated'', BDateTime t)]) c)"
  by (simp add: rotate_def UpdateOne_def)

lemma find_matches_rotate:
  "find (matches u) (snd (rotate t False g c)) =
     (if u = un g
      then map_option (apply_set [(''password'', BString (npw g)), (''last_rotated'', BDateTime t)])
             (find (matches u) c)
      else find (matches u) c)"
proof (cases "u = un g")
  case True
  then show ?thesis
    by (simp add: snd_rotate find_update_first_same matches_apply_set_rot)
next
  case False
  have "find (matches u)
          (update_first (matches (un g))
             (apply_set [(''password'', BString (npw g)), (''last_rotated'', BDateTime t)]) c)
        = find (matches u) c"
    using False by (intro find_update_first_other) (auto simp: matches_apply_set_rot dest: matches_unique)
  with False show ?thesis by (simp add: snd_rotate)
qed

lemma has_user_rotate: "has_user u (snd (rotate t fault g c)) = has_user u c"
  by (cases fault) (simp_all add: has_user_def find_matches_rotate, simp add: snd_rotate)

lemma stored_rotate_same:
  assumes "has_user (un g) c"
  shows "stored ''password'' (un g) (snd (rotate t False g c)) = Some (BString (npw g))"
    and "stored ''last_rotated'' (un g) (snd (rotate t False g c)) = Some (BDateTime t)"
  using assms
  by (auto simp: stored_def has_user_def find_matches_rotate map_of_apply_set2)

lemma stored_rotate_other:
  "u \<noteq> un g \<Longrightarrow> stored f u (snd (rotate t fault g c)) = stored f u c"
  by (cases fault) (simp_all add: stored_def find_matches_rotate, simp add: snd_rotate)

lemma rotate_no_user: "\<not> has_user (un g) c \<Longrightarrow> snd (rotate t fault g c) = c"
  by (simp add: snd_rotate has_user_iff update_first_no_match)

subsection \<open>The handlers\<close>

lemma TrimPrefix_retrieve: "TrimPrefix (''/retrieve/'' @ u) ''/retrieve/'' = u"
  by (simp add: TrimPrefix_def)

lemma retrieveCredential_at:
  assumes "Path r = ''/retrieve/'' @ u"
  shows "retrieveCredential now fault rnd r c =
     (if u = [] then (http_Error ''Username is required in path'' 400, None)
      else case FindOne fault u c of
             Inl err \<Rightarrow>
               (if err = ErrNoDocuments then (http_Error ''Credential not found'' 404, None)
                else (http_Error ''Database error'' 500, None))
           | Inr cred \<Rightarrow>
               (\<lparr>status = 200,
                 content = Json [(''password'', Str (Password cred)),
                                 (''retrieved_time'', Formatted now),
                                 (''username'', Str u)]\<rparr>,
                Some \<lparr>un = u, npw = generateRandomPassword rnd, wake = now + rotation_delay\<rparr>))"
proof -
  have tp: "TrimPrefix (Path r) ''/retrieve/'' = u"
    unfolding assms by (rule TrimPrefix_retrieve)
  show ?thesis
    unfolding retrieveCredential_def Let_def tp by simp
qed

lemma createCredential_created:
  assumes "status (fst (createCredential now oid fault r c)) = 201"
  shows "\<exists>b. Body r = Some b \<and> Method r = ''POST'' \<and> \<not> fault \<and> b_username b \<noteq> [] \<and> b_password b \<noteq> [] \<and>
             \<not> has_user (b_username b) c \<and>
             createCredential now oid fault r c =
               (\<lparr>status = 201,
                 content = Json [(''message'', Str ''Credential created successfully''),
                                 (''password'', Str (b_password b)),
                                 (''username'', Str (b_username b))]\<rparr>,
                c @ [[(''_id'', BObjectID oid), (''username'', BString (b_username b)),
                      (''password'', BString (b_password b)), (''last_rotated'', BDateTime now)]])"
  using assms
  by (auto simp: createCredential_def http_Error_def InsertOne_def bson_of_def Let_def
      duplicate_key_def has_user_iff matches_def
      split: if_splits option.splits sum.splits mongo_error.splits)

lemma createCredential_not_created:
  "status (fst (createCredential now oid fault r c)) \<noteq> 201 \<Longrightarrow>
   snd (createCredential now oid fault r c) = c"
  by (auto simp: createCredential_def http_Error_def Let_def
      split: if_splits option.splits sum.splits mongo_error.splits)

subsection \<open>Runs and the shape of stored documents\<close>

lemma run_Nil: "run [] s = s"
  by (simp add: run_def)

lemma run_Cons: "run (e # es) s = run es (step e s)"
  by (simp add: run_def)

lemma run1: "run [a] s = step a s"
  by (simp add: run_def)

lemma run2: "run [a, b] s = step b (step a s)"
  by (simp add: run_def)

lemma run4: "run [a, b, c, d] s = step d (step c (step b (step a s)))"
  by (simp add: run_def)

lemma wf_doc_apply_set:
  "wf_doc d \<Longrightarrow> wf_doc (apply_set [(''password'', BString p), (''last_rotated'', BDateTime t)] d)"
  by (auto simp: wf_doc_def apply_set_def)

lemma wf_rotate:
  assumes "\<forall>d \<in> set c. wf_doc d"
  shows "\<forall>d \<in> set (snd (rotate t fault g c)). wf_doc d"
proof (cases fault)
  case True
  with assms show ?thesis by (simp add: snd_rotate)
next
  case False
  show ?thesis
  proof
    fix d assume "d \<in> set (snd (rotate t fault g c))"
    then have "d \<in> set c \<union> apply_set [(''password'', BString (npw g)), (''last_rotated'', BDateTime t)] ` set c"
      using False set_update_first by (fastforce simp: snd_rotate)
    with assms show "wf_doc d" by (auto intro: wf_doc_apply_set)
  qed
qed

lemma wf_create:
  assumes "\<forall>d \<in> set c. wf_doc d"
  shows "\<forall>d \<in> set (snd (createCredential now oid fault r c)). wf_doc d"
proof (cases "status (fst (createCredential now oid fault r c)) = 201")
  case True
  from createCredential_created [OF True] assms show ?thesis
    by (auto simp: wf_doc_def)
next
  case False
  with assms show ?thesis by (simp add: createCredential_not_created)
qed

lemma wf_step:
  assumes "\<forall>d \<in> set (coll s). wf_doc d"
  shows "\<forall>d \<in> set (coll (step e s)). wf_doc d"
proof (cases e)
  case (Create oid fault r)
  with wf_create [OF assms] show ?thesis by simp
next
  case (Retrieve fault rnd r)
  with assms show ?thesis by (simp split: option.splits)
next
  case (Wake i fault)
  with wf_rotate [OF assms] assms show ?thesis by simp
next
  case (Advance d)
  with assms show ?thesis by simp
next
  case Restart
  with assms show ?thesis by simp
qed

lemma wf_run:
  "\<forall>d \<in> set (coll s). wf_doc d \<Longrightarrow> \<forall>d \<in> set (coll (run evs s)). wf_doc d"
proof (induction evs arbitrary: s)
  case Nil
  then show ?case by (simp add: run_Nil)
next
  case (Cons e evs)
  from Cons.IH [OF wf_step [OF Cons.prems]] show ?case by (simp add: run_Cons)
qed

lemma wf_fresh: "\<forall>d \<in> set (coll (run evs fresh)). wf_doc d"
  by (rule wf_run) (simp add: fresh_def)

lemma FindOne_wf:
  assumes "\<forall>d \<in> set c. wf_doc d" and "has_user u c"
  shows "\<exists>i pw t. u \<noteq> [] \<and> stored ''password'' u c = Some (BString pw) \<and>
           FindOne False u c = Inr \<lparr>ID = i, Username = u, Password = pw, LastRotated = t\<rparr>"
proof -
  from assms(2) obtain d where d: "find (matches u) c = Some d"
    by (auto simp: has_user_def)
  then have "d \<in> set c" and m: "matches u d"
    by (auto simp: find_Some_iff)
  with assms(1) have "wf_doc d" by blast
  then obtain i u' p t where
    "u' \<noteq> []" "d = [(''_id'', BObjectID i), (''username'', BString u'), (''password'', BString p),
            (''last_rotated'', BDateTime t)]"
    by (auto simp: wf_doc_def)
  with m d show ?thesis
    by (auto simp: matches_def stored_def FindOne_def Decode_stored_doc)
qed

lemma step_Retrieve_wf:
  assumes "\<forall>d \<in> set (coll s). wf_doc d" and "has_user u (coll s)" and "Path r = ''/retrieve/'' @ u"
  shows "step (Retrieve False rnd r) s =
           s\<lparr>sleeping := sleeping s @
               [\<lparr>un = u, npw = generateRandomPassword rnd, wake = clock s + rotation_delay\<rparr>]\<rparr>"
  using FindOne_wf [OF assms(1,2)] by (auto simp: retrieveCredential_at [OF assms(3)])

subsection \<open>The history of a run\<close>

lemma last_write_append:
  "last_write u (a @ b) = (case last_write u b of None \<Rightarrow> last_write u a | Some p \<Rightarrow> Some p)"
  by (simp add: last_write_def map_add_def split: option.splits)

lemma last_write_single: "last_write u [(v, p)] = (if u = v then Some p else None)"
  by (simp add: last_write_def)

lemma last_write_Nil: "last_write u [] = None"
  by (simp add: last_write_def)

lemma stored_create:
  "stored ''password'' u (coll (step (Create oid fault r) s)) =
     (case last_write u (committed (Create oid fault r) s) of
        None \<Rightarrow> stored ''password'' u (coll s)
      | Some p \<Rightarrow> Some (BString p))"
proof (cases "status (fst (createCredential (clock s) oid fault r (coll s))) = 201")
  case True
  from createCredential_created [OF True] obtain b where
    b: "Body r = Some b" "\<not> has_user (b_username b) (coll s)" and
    c': "snd (createCredential (clock s) oid fault r (coll s)) =
           coll s @ [[(''_id'', BObjectID oid), (''username'', BString (b_username b)),
                      (''password'', BString (b_password b)), (''last_rotated'', BDateTime (clock s))]]"
    by auto
  have "find (matches (b_username b)) (coll s) = None"
    using b(2) by (simp add: has_user_def)
  then show ?thesis
    using True b(1)
    by (auto simp: c' stored_def find_append matches_def last_write_single split: option.splits)
next
  case False
  then show ?thesis
    by (simp add: createCredential_not_created last_write_Nil)
qed

lemma stored_wake:
  "stored ''password'' u (coll (step (Wake i fault) s)) =
     (case last_write u (committed (Wake i fault) s) of
        None \<Rightarrow> stored ''password'' u (coll s)
      | Some p \<Rightarrow> Some (BString p))"
proof (cases "i < length (sleeping s) \<and> wake (sleeping s ! i) \<le> clock s")
  case False
  then show ?thesis by (auto simp: last_write_Nil)
next
  case en: True
  let ?g = "sleeping s ! i"
  show ?thesis
  proof (cases "\<not> fault \<and> has_user (un ?g) (coll s)")
    case True
    then show ?thesis
      using en stored_rotate_same(1) [of ?g "coll s" "clock s"] stored_rotate_other [of u ?g]
      by (auto simp: last_write_single)
  next
    case False
    have "snd (rotate (clock s) fault ?g (coll s)) = coll s"
    proof (cases fault)
      case True
      then show ?thesis by (simp add: snd_rotate)
    next
      case nf: False
      with False have "\<not> has_user (un ?g) (coll s)" by simp
      then show ?thesis by (rule rotate_no_user)
    qed
    with False en show ?thesis by (auto simp: last_write_Nil)
  qed
qed

lemma stored_step:
  "stored ''password'' u (coll (step e s)) =
     (case last_write u (committed e s) of
        None \<Rightarrow> stored ''password'' u (coll s)
      | Some p \<Rightarrow> Some (BString p))"
proof (cases e)
  case (Create oid fault r)
  then show ?thesis using stored_create by simp
next
  case (Retrieve fault rnd r)
  then show ?thesis by (simp add: last_write_Nil split: option.splits)
next
  case (Wake i fault)
  then show ?thesis using stored_wake by simp
next
  case (Advance d)
  then show ?thesis by (simp add: last_write_Nil)
next
  case Restart
  then show ?thesis by (simp add: last_write_Nil)
qed

lemma stored_run:
  "stored ''password'' u (coll (run evs s)) =
     (case last_write u (history evs s) of
        None \<Rightarrow> stored ''password'' u (coll s)
      | Some p \<Rightarrow> Some (BString p))"
proof (induction evs arbitrary: s)
  case Nil
  then show ?case by (simp add: run_Nil last_write_Nil)
next
  case (Cons e evs)
  show ?case
    by (simp add: run_Cons Cons.IH last_write_append stored_step split: option.splits)
qed

subsection \<open>Events that are no request\<close>

lemma no_request_step:
  "no_request e \<Longrightarrow> sleeping s = [] \<Longrightarrow> coll (step e s) = coll s \<and> sleeping (step e s) = []"
  by (cases e) auto

lemma no_request_run:
  "\<forall>e \<in> set evs. no_request e \<Longrightarrow> sleeping s = [] \<Longrightarrow>
   coll (run evs s) = coll s \<and> sleeping (run evs s) = []"
proof (induction evs arbitrary: s)
  case Nil
  then show ?case by (simp add: run_Nil)
next
  case (Cons e evs)
  from Cons.prems have e: "no_request e" and es: "\<forall>e \<in> set evs. no_request e" by simp_all
  from no_request_step [OF e Cons.prems(2)]
  have "coll (step e s) = coll s" "sleeping (step e s) = []" by simp_all
  with Cons.IH [OF es, of "step e s"] show ?case by (simp add: run_Cons)
qed

subsection \<open>The two requests, evaluated\<close>

lemmas handler_defs =
  createCredential_def retrieveCredential_def rotate_def InsertOne_def FindOne_def UpdateOne_def
  bson_of_def duplicate_key_def matches_def Decode_def TrimPrefix_def apply_set_def
  rotation_delay_def http_Error_def has_user_def stored_def zero_time_def Let_def
  create_alice_def retrieve_alice_def fresh_def run_def

lemma password_id: "generateRandomPassword id = ''abcdefghijkl''"
  by (simp add: generateRandomPassword_def charset_def)

lemma password_Suc: "generateRandomPassword Suc = ''bcdefghijklm''"
  by (simp add: generateRandomPassword_def charset_def)

lemma alice_created:
  "run [Create 7 False create_alice] fresh =
     \<lparr>coll = [[(''_id'', BObjectID 7), (''username'', BString ''alice''),
               (''password'', BString ''Init@123''), (''last_rotated'', BDateTime 0)]],
      sleeping = [], clock = 0\<rparr>"
  by (simp add: handler_defs)

lemma alice_retrieved_twice:
  "run [Create 7 False create_alice, Retrieve False id retrieve_alice, Advance 3000,
        Retrieve False Suc retrieve_alice] fresh =
     \<lparr>coll = [[(''_id'', BObjectID 7), (''username'', BString ''alice''),
               (''password'', BString ''Init@123''), (''last_rotated'', BDateTime 0)]],
      sleeping = [\<lparr>un = ''alice'', npw = ''abcdefghijkl'', wake = 10000\<rparr>,
                  \<lparr>un = ''alice'', npw = ''bcdefghijklm'', wake = 13000\<rparr>],
      clock = 3000\<rparr>"
  by (simp add: handler_defs password_id password_Suc)

lemma alice_history:
  "history [Create 7 False create_alice, Retrieve False id retrieve_alice, Advance 10000,
            Wake 0 False] fresh = [(''alice'', ''Init@123''), (''alice'', ''abcdefghijkl'')]"
  by (simp add: handler_defs password_id)

section \<open>The properties of the specification\<close>

subsection \<open>C7: creating a username twice\<close>

text \<open>
  C7. A well-formed create (\<open>POST\<close>, a body that decodes, username and password not
  empty) for a username the collection already holds fails: \<open>InsertOne\<close> itself returns
  the duplicate-key write exception of the unique index (the handler reads nothing
  beforehand), the handler answers 409 \<open>Username already exists\<close>, and the collection, the
  first record included, is what it was.
\<close>

theorem create_duplicate:
  assumes "Method r = ''POST''" and "Body r = Some b"
    and "b_username b \<noteq> []" and "b_password b \<noteq> []"
    and "has_user (b_username b) c"
  shows "InsertOne oid False
           (bson_of \<lparr>ID = 0, Username = b_username b, Password = b_password b, LastRotated = now\<rparr>) c
         = Inl (WriteException [11000]) \<and>
         createCredential now oid False r c = (http_Error ''Username already exists'' 409, c)"
proof -
  let ?doc = "bson_of \<lparr>ID = 0, Username = b_username b, Password = b_password b, LastRotated = now\<rparr>"
  from assms(5) obtain d where d: "d \<in> set c" "map_of d ''username'' = Some (BString (b_username b))"
    by (auto simp: has_user_iff matches_def)
  then have dup: "duplicate_key ((''_id'', BObjectID oid) # ?doc) c"
    by (auto simp: duplicate_key_def map_of_bson_of_new)
  then have ins: "InsertOne oid False ?doc c = Inl (WriteException [11000])"
    by (simp add: InsertOne_def map_of_bson_of_new)
  then show ?thesis
    using assms(1-4) by (simp add: createCredential_def)
qed

theorem create_duplicate_witness:
  "createCredential 5 8 False create_alice (coll (run [Create 7 False create_alice] fresh))
   = (http_Error ''Username already exists'' 409, coll (run [Create 7 False create_alice] fresh))"
proof -
  have "has_user ''alice'' (coll (run [Create 7 False create_alice] fresh))"
    by (simp add: alice_created has_user_def matches_def)
  then show ?thesis
    using create_duplicate [of create_alice
        "\<lparr>b_username = ''alice'', b_password = ''Init@123'', b_last_rotated = zero_time\<rparr>"
        "coll (run [Create 7 False create_alice] fresh)" 8 5]
    by (simp add: create_alice_def)
qed

subsection \<open>C8: retrieving an unknown username\<close>

text \<open>
  C8. A retrieval of a username, not empty, that no document of the collection carries is
  answered 404 \<open>Credential not found\<close>, and the server is in the same state afterwards: no
  goroutine has been started. (An empty username never reaches the collection: the handler
  answers 400.)
\<close>

theorem retrieve_absent:
  assumes "\<not> has_user u (coll s)" and "u \<noteq> []" and "Path r = ''/retrieve/'' @ u"
  shows "retrieveCredential (clock s) False rnd r (coll s) = (http_Error ''Credential not found'' 404, None) \<and>
         step (Retrieve False rnd r) s = s"
proof -
  have "find (matches u) (coll s) = None"
    using assms(1) by (simp add: has_user_def)
  then have "retrieveCredential (clock s) False rnd r (coll s) = (http_Error ''Credential not found'' 404, None)"
    using assms(2) by (simp add: retrieveCredential_at [OF assms(3)] FindOne_def)
  then show ?thesis by simp
qed

theorem retrieve_absent_witness:
  "retrieveCredential 0 False id retrieve_alice [] = (http_Error ''Credential not found'' 404, None) \<and>
   step (Retrieve False id retrieve_alice) fresh = fresh"
  using retrieve_absent [of "''alice''" fresh retrieve_alice id]
  by (simp add: fresh_def has_user_def retrieve_alice_def)

subsection \<open>C9: create, then retrieve\<close>

text \<open>
  C9. Whatever the collection held, when a create answers 201 its body decoded to some
  username and password, and every retrieval of that username on the resulting collection,
  absent a driver error, answers 200 with exactly the password created.
\<close>

theorem create_then_retrieve:
  assumes "status (fst (createCredential now oid fault r c)) = 201"
    and "c' = snd (createCredential now oid fault r c)"
  shows "\<exists>b. Body r = Some b \<and>
           (\<forall>now' rnd r'. Path r' = ''/retrieve/'' @ b_username b \<longrightarrow>
              fst (retrieveCredential now' False rnd r' c') =
                \<lparr>status = 200,
                 content = Json [(''password'', Str (b_password b)),
                                 (''retrieved_time'', Formatted now'),
                                 (''username'', Str (b_username b))]\<rparr>)"
proof -
  from createCredential_created [OF assms(1)] obtain b where
    b: "Body r = Some b" "b_username b \<noteq> []" "\<not> has_user (b_username b) c" and
    c': "c' = c @ [[(''_id'', BObjectID oid), (''username'', BString (b_username b)),
                    (''password'', BString (b_password b)), (''last_rotated'', BDateTime now)]]"
    using assms(2) by auto
  have "find (matches (b_username b)) c = None"
    using b(3) by (simp add: has_user_def)
  then have "FindOne False (b_username b) c' =
      Inr \<lparr>ID = oid, Username = b_username b, Password = b_password b, LastRotated = now\<rparr>"
    by (simp add: FindOne_def c' find_append matches_def Decode_stored_doc)
  then show ?thesis
    using b(1,2) by (auto simp: retrieveCredential_at)
qed

theorem create_then_retrieve_witness:
  "fst (retrieveCredential 1 False id retrieve_alice
          (snd (createCredential 0 7 False create_alice [])))
   = \<lparr>status = 200,
      content = Json [(''password'', Str ''Init@123''), (''retrieved_time'', Formatted 1),
                      (''username'', Str ''alice'')]\<rparr>"
proof -
  have "status (fst (createCredential 0 7 False create_alice [])) = 201"
    by (simp add: handler_defs)
  from create_then_retrieve [OF this refl] show ?thesis
    by (auto simp: create_alice_def retrieve_alice_def)
qed

subsection \<open>C6: the response of a retrieval\<close>

text \<open>
  C6. In every state the server can reach from an empty collection, a retrieval of a
  username the collection holds, absent a driver error on the read, answers 200 with the
  password that is stored at that instant. The response is fixed by the collection and the
  clock alone: it depends neither on the random source of the new password nor on the
  goroutines already sleeping. The step changes nothing but the list of sleeping goroutines:
  the collection and the clock are as before, and the goroutine it starts cannot resume
  before \<open>rotation_delay\<close> has passed.
\<close>

theorem retrieve_present:
  assumes "s = run evs fresh" and "has_user u (coll s)" and "Path r = ''/retrieve/'' @ u"
  shows "\<exists>pw. stored ''password'' u (coll s) = Some (BString pw) \<and>
           (\<forall>now rnd. fst (retrieveCredential now False rnd r (coll s)) =
              \<lparr>status = 200,
               content = Json [(''password'', Str pw), (''retrieved_time'', Formatted now),
                               (''username'', Str u)]\<rparr>) \<and>
           (\<forall>rnd. step (Retrieve False rnd r) s =
              s\<lparr>sleeping := sleeping s @
                  [\<lparr>un = u, npw = generateRandomPassword rnd, wake = clock s + rotation_delay\<rparr>]\<rparr>)"
proof -
  have wf: "\<forall>d \<in> set (coll s). wf_doc d"
    unfolding assms(1) by (rule wf_fresh)
  from FindOne_wf [OF wf assms(2)] obtain i pw t where
    "u \<noteq> []" "stored ''password'' u (coll s) = Some (BString pw)"
    "FindOne False u (coll s) = Inr \<lparr>ID = i, Username = u, Password = pw, LastRotated = t\<rparr>"
    by blast
  then show ?thesis
    using step_Retrieve_wf [OF wf assms(2,3)]
    by (auto simp: retrieveCredential_at [OF assms(3)])
qed

theorem retrieve_present_witness:
  "fst (retrieveCredential 42 False id retrieve_alice
          (coll (run [Create 7 False create_alice] fresh)))
   = \<lparr>status = 200,
      content = Json [(''password'', Str ''Init@123''), (''retrieved_time'', Formatted 42),
                      (''username'', Str ''alice'')]\<rparr>"
proof -
  have "has_user ''alice'' (coll (run [Create 7 False create_alice] fresh))"
    and "Path retrieve_alice = ''/retrieve/'' @ ''alice''"
    and st: "stored ''password'' ''alice'' (coll (run [Create 7 False create_alice] fresh))
      = Some (BString ''Init@123'')"
    by (simp_all add: alice_created has_user_def stored_def matches_def retrieve_alice_def)
  from retrieve_present [OF refl this(1,2)] st show ?thesis
    by auto
qed

subsection \<open>C10: what the update leaves alone\<close>

text \<open>
  C10. The update of the goroutine keeps the number and the order of the documents; in
  every document every field other than \<open>password\<close> and \<open>last_rotated\<close> (so \<open>username\<close>
  and \<open>_id\<close>) has the value it had, and a document that does not match the username of the
  goroutine is not changed at all.
\<close>

theorem rotate_frame:
  "length (snd (rotate t fault g c)) = length c \<and>
   (\<forall>i < length c.
      (\<forall>k. k \<noteq> ''password'' \<and> k \<noteq> ''last_rotated'' \<longrightarrow>
            map_of (snd (rotate t fault g c) ! i) k = map_of (c ! i) k) \<and>
      (\<not> matches (un g) (c ! i) \<longrightarrow> snd (rotate t fault g c) ! i = c ! i))"
proof (cases fault)
  case True
  then show ?thesis by (simp add: rotate_def UpdateOne_def)
next
  case False
  let ?f = "apply_set [(''password'', BString (npw g)), (''last_rotated'', BDateTime t)]"
  have c': "snd (rotate t fault g c) = update_first (matches (un g)) ?f c"
    using False by (simp add: rotate_def UpdateOne_def)
  have frame: "map_of (update_first (matches (un g)) ?f c ! i) k = map_of (c ! i) k"
    if "i < length c" "k \<noteq> ''password''" "k \<noteq> ''last_rotated''" for i k
    using that nth_update_first_frame [of i c "\<lambda>d. map_of d k" ?f "matches (un g)"]
    by (simp add: map_of_apply_set2)
  show ?thesis
    unfolding c' using frame by (simp add: length_update_first nth_update_first_unmatched)
qed

theorem rotate_frame_witness:
  "map_of (snd (rotate 10000 False \<lparr>un = ''alice'', npw = ''abcdefghijkl'', wake = 10000\<rparr>
             (coll (run [Create 7 False create_alice] fresh))) ! 0) ''username''
     = Some (BString ''alice'') \<and>
   map_of (snd (rotate 10000 False \<lparr>un = ''alice'', npw = ''abcdefghijkl'', wake = 10000\<rparr>
             (coll (run [Create 7 False create_alice] fresh))) ! 0) ''_id''
     = Some (BObjectID 7)"
  using rotate_frame [of 10000 False "\<lparr>un = ''alice'', npw = ''abcdefghijkl'', wake = 10000\<rparr>"
      "coll (run [Create 7 False create_alice] fresh)"]
  by (simp add: alice_created)

subsection \<open>C4: the update is unconditional\<close>

text \<open>
  C4, as stated, fails: the update carries no expected version and signals no conflict.
  After two retrievals of \<open>alice\<close> the first goroutine has replaced the password that the
  second one saw when it was started; the second update is applied all the same, logs a
  rotation and overwrites the record.
\<close>

theorem conditional_update_counterexample:
  "stored ''password'' ''alice''
     (coll (run [Create 7 False create_alice, Retrieve False id retrieve_alice,
                 Retrieve False Suc retrieve_alice, Advance 10000, Wake 0 False] fresh))
     = Some (BString ''abcdefghijkl'') \<and>
   rotate 10000 False \<lparr>un = ''alice'', npw = ''bcdefghijklm'', wake = 10000\<rparr>
     (coll (run [Create 7 False create_alice, Retrieve False id retrieve_alice,
                 Retrieve False Suc retrieve_alice, Advance 10000, Wake 0 False] fresh))
     = (PasswordRotated ''alice'' 10000,
        [[(''_id'', BObjectID 7), (''username'', BString ''alice''),
          (''password'', BString ''bcdefghijklm''), (''last_rotated'', BDateTime 10000)]])"
  by (simp add: handler_defs password_id password_Suc)

text \<open>
  C4, amended. Absent a driver error the update of a rotation always reports success.
  It filters on the username alone: when the collection holds a record for the username, the
  record gets the new password and the new \<open>last_rotated\<close>, whatever it held before; when
  it holds none, the collection is left as it is.
\<close>

theorem rotate_unconditional:
  "fst (rotate t False g c) = PasswordRotated (un g) t \<and>
   (has_user (un g) c \<longrightarrow>
      stored ''password'' (un g) (snd (rotate t False g c)) = Some (BString (npw g)) \<and>
      stored ''last_rotated'' (un g) (snd (rotate t False g c)) = Some (BDateTime t)) \<and>
   (\<not> has_user (un g) c \<longrightarrow> snd (rotate t False g c) = c)"
proof -
  have "fst (rotate t False g c) = PasswordRotated (un g) t"
    by (simp add: rotate_def UpdateOne_def)
  then show ?thesis
    using stored_rotate_same [of g c t] rotate_no_user [of g c t False] by blast
qed

theorem rotate_unconditional_witness:
  "stored ''password'' ''alice''
     (snd (rotate 10000 False \<lparr>un = ''alice'', npw = ''bcdefghijklm'', wake = 10000\<rparr>
        (coll (run [Create 7 False create_alice] fresh))))
     = Some (BString ''bcdefghijklm'') \<and>
   snd (rotate 10000 False \<lparr>un = ''bob'', npw = ''bcdefghijklm'', wake = 10000\<rparr>
        (coll (run [Create 7 False create_alice] fresh)))
     = coll (run [Create 7 False create_alice] fresh)"
  using rotate_unconditional [of 10000 "\<lparr>un = ''alice'', npw = ''bcdefghijklm'', wake = 10000\<rparr>"
      "coll (run [Create 7 False create_alice] fresh)"]
    rotate_unconditional [of 10000 "\<lparr>un = ''bob'', npw = ''bcdefghijklm'', wake = 10000\<rparr>"
      "coll (run [Create 7 False create_alice] fresh)"]
  by (simp add: alice_created has_user_def matches_def)

subsection \<open>C5: one goroutine for every retrieval\<close>

text \<open>
  C5, as stated, fails: after two retrievals of \<open>alice\<close> three seconds apart two
  goroutines for \<open>alice\<close> are sleeping.
\<close>

theorem duplicate_job_counterexample:
  "map un (sleeping (run [Create 7 False create_alice, Retrieve False id retrieve_alice,
                          Advance 3000, Retrieve False Suc retrieve_alice] fresh))
     = [''alice'', ''alice'']"
  by (simp add: alice_retrieved_twice)

text \<open>
  C5, amended. Every retrieval that answers 200 starts one more goroutine for its
  username, whatever goroutines are sleeping already: nothing is rejected and nothing is
  merged.
\<close>

theorem retrieve_always_spawns:
  assumes "status (fst (retrieveCredential (clock s) fault rnd r (coll s))) = 200"
  shows "sleeping (step (Retrieve fault rnd r) s) = sleeping s @
           [\<lparr>un = TrimPrefix (Path r) ''/retrieve/'', npw = generateRandomPassword rnd,
             wake = clock s + rotation_delay\<rparr>]"
  using assms
  by (auto simp: retrieveCredential_def Let_def http_Error_def split: if_splits sum.splits)

theorem retrieve_always_spawns_witness:
  "sleeping (step (Retrieve False Suc retrieve_alice)
      (run [Create 7 False create_alice, Retrieve False id retrieve_alice, Advance 3000] fresh))
   = [\<lparr>un = ''alice'', npw = ''abcdefghijkl'', wake = 10000\<rparr>,
      \<lparr>un = ''alice'', npw = ''bcdefghijklm'', wake = 13000\<rparr>]"
proof -
  have s: "run [Create 7 False create_alice, Retrieve False id retrieve_alice, Advance 3000] fresh =
     \<lparr>coll = [[(''_id'', BObjectID 7), (''username'', BString ''alice''),
               (''password'', BString ''Init@123''), (''last_rotated'', BDateTime 0)]],
      sleeping = [\<lparr>un = ''alice'', npw = ''abcdefghijkl'', wake = 10000\<rparr>], clock = 3000\<rparr>"
    by (simp add: handler_defs password_id)
  have "status (fst (retrieveCredential 3000 False Suc retrieve_alice
      [[(''_id'', BObjectID 7), (''username'', BString ''alice''),
        (''password'', BString ''Init@123''), (''last_rotated'', BDateTime 0)]])) = 200"
    by (simp add: handler_defs)
  then show ?thesis
    using retrieve_always_spawns [of "run [Create 7 False create_alice,
        Retrieve False id retrieve_alice, Advance 3000] fresh" False Suc retrieve_alice]
    unfolding s by (simp add: password_Suc retrieve_alice_def TrimPrefix_def rotation_delay_def)
qed

subsection \<open>C1: two retrievals within the delay\<close>

text \<open>
  C1, as stated, fails: \<open>alice\<close> is retrieved at 0 s and at 3 s. At 10 s the first
  goroutine writes its password, at 13 s the second one writes its own over it; no rotation
  is cancelled.
\<close>

theorem two_rotations_counterexample:
  "stored ''password'' ''alice''
     (coll (run [Create 7 False create_alice, Retrieve False id retrieve_alice, Advance 3000,
                 Retrieve False Suc retrieve_alice, Advance 7000, Wake 0 False] fresh))
     = Some (BString ''abcdefghijkl'') \<and>
   stored ''password'' ''alice''
     (coll (run [Create 7 False create_alice, Retrieve False id retrieve_alice, Advance 3000,
                 Retrieve False Suc retrieve_alice, Advance 7000, Wake 0 False,
                 Advance 3000, Wake 0 False] fresh))
     = Some (BString ''bcdefghijklm'')"
  by (simp add: handler_defs password_id password_Suc)

text \<open>
  C1, amended. In every state the server can reach, for a username the collection holds:
  after two retrievals, any time \<open>d\<close> apart (so also within the delay), both goroutines are
  sleeping; when the first resumes, absent a driver error, the record holds its password,
  and when the second resumes after it the record holds the password of the second. Both
  rotations are applied, each to the record as it then is.
\<close>

theorem both_rotations_apply:
  assumes s: "s = run evs fresh" and u: "has_user u (coll s)" and r: "Path r = ''/retrieve/'' @ u"
    and s2: "s2 = run [Retrieve False rnd1 r, Advance d, Retrieve False rnd2 r, Advance 10000] s"
    and n: "n = length (sleeping s)"
  shows "sleeping s2 = sleeping s @
           [\<lparr>un = u, npw = generateRandomPassword rnd1, wake = clock s + rotation_delay\<rparr>,
            \<lparr>un = u, npw = generateRandomPassword rnd2, wake = clock s + int d + rotation_delay\<rparr>] \<and>
         stored ''password'' u (coll (run [Wake n False] s2)) =
           Some (BString (generateRandomPassword rnd1)) \<and>
         stored ''password'' u (coll (run [Wake n False, Wake n False] s2)) =
           Some (BString (generateRandomPassword rnd2)) \<and>
         sleeping (run [Wake n False, Wake n False] s2) = sleeping s"
proof -
  let ?g1 = "\<lparr>un = u, npw = generateRandomPassword rnd1, wake = clock s + rotation_delay\<rparr>"
  let ?g2 = "\<lparr>un = u, npw = generateRandomPassword rnd2, wake = clock s + int d + rotation_delay\<rparr>"
  have wf: "\<forall>d \<in> set (coll s). wf_doc d"
    unfolding s by (rule wf_fresh)
  define s1 where "s1 = s\<lparr>sleeping := sleeping s @ [?g1]\<rparr>"
  define sa where "sa = s1\<lparr>clock := clock s1 + int d\<rparr>"
  define sb where "sb = sa\<lparr>sleeping := sleeping sa @ [?g2]\<rparr>"
  define sc where "sc = sb\<lparr>clock := clock sb + 10000\<rparr>"
  have e1: "step (Retrieve False rnd1 r) s = s1"
    unfolding s1_def by (rule step_Retrieve_wf [OF wf u r])
  have e2: "step (Advance d) s1 = sa"
    by (simp add: sa_def)
  have sa: "coll sa = coll s" "clock sa = clock s + int d"
    by (simp_all add: sa_def s1_def)
  have e3: "step (Retrieve False rnd2 r) sa = sb"
    using step_Retrieve_wf [of sa u r rnd2] wf u r unfolding sb_def sa by blast
  have e4: "step (Advance 10000) sb = sc"
    by (simp add: sc_def)
  have s2sc: "s2 = sc"
    unfolding s2 run4 e1 e2 e3 e4 ..
  have sc: "coll sc = coll s" "sleeping sc = sleeping s @ [?g1, ?g2]"
    "clock sc = clock s + int d + 10000"
    by (simp_all add: sc_def sb_def sa_def s1_def)
  define sd where "sd = sc\<lparr>coll := snd (rotate (clock sc) False ?g1 (coll s)),
                             sleeping := sleeping s @ [?g2]\<rparr>"
  have e5: "step (Wake n False) sc = sd"
    by (simp add: sd_def n sc rotation_delay_def)
  have sd: "coll sd = snd (rotate (clock sc) False ?g1 (coll s))" "sleeping sd = sleeping s @ [?g2]"
    "clock sd = clock s + int d + 10000"
    by (simp_all add: sd_def sc)
  have p1: "stored ''password'' u (coll sd) = Some (BString (generateRandomPassword rnd1))"
    using stored_rotate_same(1) [of ?g1 "coll s" "clock sc"] u by (simp add: sd)
  have u3: "has_user u (coll sd)"
    using u by (simp add: sd has_user_rotate)
  define se where "se = sd\<lparr>coll := snd (rotate (clock sd) False ?g2 (coll sd)),
                             sleeping := sleeping s\<rparr>"
  have e6: "step (Wake n False) sd = se"
    by (simp add: se_def n sd rotation_delay_def)
  have p2: "stored ''password'' u (coll se) = Some (BString (generateRandomPassword rnd2))"
    using stored_rotate_same(1) [of ?g2 "coll sd" "clock sd"] u3 by (simp add: se_def)
  have "sleeping se = sleeping s"
    by (simp add: se_def)
  then show ?thesis
    unfolding s2sc run1 run2 e5 e6 using p1 p2 sc(2) by simp
qed

theorem both_rotations_apply_witness:
  "stored ''password'' ''alice''
     (coll (run [Wake 0 False, Wake 0 False]
        (run [Retrieve False id retrieve_alice, Advance 3000, Retrieve False Suc retrieve_alice,
              Advance 10000] (run [Create 7 False create_alice] fresh))))
     = Some (BString ''bcdefghijklm'')"
  using both_rotations_apply [of "run [Create 7 False create_alice] fresh"
      "[Create 7 False create_alice]" "''alice''" retrieve_alice _ id 3000 Suc 0, OF refl _ _ refl]
  by (simp add: alice_created has_user_def matches_def retrieve_alice_def password_Suc)

subsection \<open>C2: a restart\<close>

text \<open>
  C2, as stated, fails: the goroutine that a retrieval of \<open>alice\<close> started is gone after a
  restart, and twenty seconds later the record still holds the password created.
\<close>

theorem restart_counterexample:
  "sleeping (run [Create 7 False create_alice, Retrieve False id retrieve_alice] fresh)
     = [\<lparr>un = ''alice'', npw = ''abcdefghijkl'', wake = 10000\<rparr>] \<and>
   sleeping (run [Create 7 False create_alice, Retrieve False id retrieve_alice, Restart] fresh) = [] \<and>
   stored ''password'' ''alice''
     (coll (run [Create 7 False create_alice, Retrieve False id retrieve_alice, Restart,
                 Advance 20000, Wake 0 False] fresh))
     = Some (BString ''Init@123'')"
  by (simp add: handler_defs password_id)

text \<open>
  C2, amended. A retrieval writes nothing to the collection: the rotation it schedules
  exists only as a goroutine of the server process. After a restart no goroutine is left,
  and until the next request (whatever time passes) the collection does not change: the
  rotations that were pending are never applied.
\<close>

theorem rotation_lost_on_restart:
  "coll (step (Retrieve fault rnd r) s) = coll s \<and>
   ((\<forall>e \<in> set evs. no_request e) \<longrightarrow>
      coll (run (Restart # evs) s) = coll s \<and> sleeping (run (Restart # evs) s) = [])"
proof -
  have "coll (step (Retrieve fault rnd r) s) = coll s"
    by (simp split: option.splits)
  moreover have "coll (run (Restart # evs) s) = coll s \<and> sleeping (run (Restart # evs) s) = []"
    if "\<forall>e \<in> set evs. no_request e"
    using no_request_run [OF that, of "step Restart s"] by (simp add: run_Cons)
  ultimately show ?thesis by blast
qed

theorem rotation_lost_on_restart_witness:
  "coll (run [Restart, Advance 20000, Wake 0 False]
           (run [Create 7 False create_alice, Retrieve False id retrieve_alice] fresh))
     = coll (run [Create 7 False create_alice, Retrieve False id retrieve_alice] fresh) \<and>
   sleeping (run [Restart, Advance 20000, Wake 0 False]
           (run [Create 7 False create_alice, Retrieve False id retrieve_alice] fresh)) = []"
  using rotation_lost_on_restart [of False id retrieve_alice
      "run [Create 7 False create_alice, Retrieve False id retrieve_alice] fresh"
      "[Advance 20000, Wake 0 False]"]
  by simp

subsection \<open>C3: no version counter\<close>

text \<open>
  C3, as stated, fails: the document that a create stores has the fields \<open>_id\<close>,
  \<open>username\<close>, \<open>password\<close> and \<open>last_rotated\<close> and no field \<open>version\<close>, and a rotation
  adds none.
\<close>

theorem version_counterexample:
  "coll (run [Create 7 False create_alice] fresh) =
     [[(''_id'', BObjectID 7), (''username'', BString ''alice''),
       (''password'', BString ''Init@123''), (''last_rotated'', BDateTime 0)]] \<and>
   map_of (hd (coll (run [Create 7 False create_alice] fresh))) ''version'' = None \<and>
   map fst (hd (coll (run [Create 7 False create_alice, Retrieve False id retrieve_alice,
                           Advance 10000, Wake 0 False] fresh)))
     = [''_id'', ''username'', ''password'', ''last_rotated'']"
  by (simp add: handler_defs password_id)

text \<open>
  C3, amended. In every state the server can reach from an empty collection, every stored
  document has exactly the fields \<open>_id\<close>, \<open>username\<close>, \<open>password\<close> and
  \<open>last_rotated\<close>, and the password stored for a username is the one of the last write
  committed for it (its create, or the latest rotation applied), none when there was no
  write.
\<close>

theorem no_version_last_write_wins:
  "(\<forall>d \<in> set (coll (run evs fresh)).
      map fst d = [''_id'', ''username'', ''password'', ''last_rotated'']) \<and>
   (\<forall>u. stored ''password'' u (coll (run evs fresh)) =
         map_option BString (last_write u (history evs fresh)))"
proof -
  have "map fst d = [''_id'', ''username'', ''password'', ''last_rotated'']"
    if "d \<in> set (coll (run evs fresh))" for d
    using wf_fresh [of evs] that by (auto simp: wf_doc_def)
  moreover have "stored ''password'' u (coll (run evs fresh)) =
         map_option BString (last_write u (history evs fresh))" for u
  proof -
    have "stored ''password'' u (coll fresh) = None"
      by (simp add: stored_def fresh_def)
    then show ?thesis
      by (simp add: stored_run split: option.splits)
  qed
  ultimately show ?thesis by blast
qed

theorem no_version_last_write_wins_witness:
  "stored ''password'' ''alice''
     (coll (run [Create 7 False create_alice, Retrieve False id retrieve_alice, Advance 10000,
                 Wake 0 False] fresh))
     = Some (BString ''abcdefghijkl'')"
proof -
  have "stored ''password'' ''alice''
     (coll (run [Create 7 False create_alice, Retrieve False id retrieve_alice, Advance 10000,
                 Wake 0 False] fresh))
     = map_option BString (last_write ''alice''
         (history [Create 7 False create_alice, Retrieve False id retrieve_alice, Advance 10000,
                   Wake 0 False] fresh))"
    using no_version_last_write_wins [of "[Create 7 False create_alice,
      Retrieve False id retrieve_alice, Advance 10000, Wake 0 False]"] by blast
  also have "\<dots> = Some (BString ''abcdefghijkl'')"
    unfolding alice_history by (simp add: last_write_def)
  finally show ?thesis .
qed

end
